theory Spec2Isabelle
  imports Complex_Main "HOL-Library.Word" "HOL-Library.List_Lexorder" "HOL-Library.Char_ord"
begin

unbundle bit_operations_syntax

section \<open>Sample edits and the ffmpeg filter chain (services/session.py, services/player.py)\<close>

text \<open>
  \<^verbatim>\<open>SampleEdits\<close> is the dataclass of \<^verbatim>\<open>services/session.py\<close>. Its float fields are
  modelled as exact reals (Python's binary rounding of \<^verbatim>\<open>+\<close>, \<^verbatim>\<open>-\<close>, \<^verbatim>\<open>*\<close>, \<^verbatim>\<open>/\<close> is not
  modelled), its int fields as integers. The field \<^verbatim>\<open>normalize\<close> is named
  \<open>normalize_on\<close> here, since \<open>normalize\<close> is a constant of HOL.
\<close>

record SampleEdits =
  attack_ms :: real
  release_ms :: real
  gain_db :: real
  normalize_on :: bool
  hp_freq :: int
  lp_freq :: int
  reverse :: bool
  trim_start_ms :: real
  trim_end_ms :: real

text \<open>\<^verbatim>\<open>SampleEdits()\<close>: the defaults of the dataclass.\<close>

definition default_edits :: SampleEdits where
  "default_edits =
     \<lparr>attack_ms = 0, release_ms = 0, gain_db = 0, normalize_on = False,
      hp_freq = 20, lp_freq = 20000, reverse = False,
      trim_start_ms = 0, trim_end_ms = 0\<rparr>"

text \<open>\<^verbatim>\<open>is_default\<close>: \<^verbatim>\<open>self == SampleEdits()\<close>, the dataclass's field-wise equality.\<close>

definition is_default :: "SampleEdits \<Rightarrow> bool" where
  "is_default self = (self = default_edits)"

text \<open>
  One entry of the list \<^verbatim>\<open>filters\<close>. Each constructor stands for one of the f-strings
  that \<^verbatim>\<open>build_filter_chain\<close> and \<^verbatim>\<open>play_with_edits\<close> append, and carries the numbers
  that are printed into it:
  \<^item> \<open>Atrim s e\<close>: \<^verbatim>\<open>atrim=start_ms={s}:end_ms={e}\<close>;
  \<^item> \<open>Asetpts\<close>: \<^verbatim>\<open>asetpts=PTS-STARTPTS\<close>; \<open>Areverse\<close>: \<^verbatim>\<open>areverse\<close>;
  \<^item> \<open>AfadeIn d\<close>: \<^verbatim>\<open>afade=t=in:d={attack_s:.3f}\<close>, and
    \<open>AfadeOut st d\<close>: \<^verbatim>\<open>afade=t=out:st={fade_start:.3f}:d={release_s:.3f}\<close>. The format
    \<^verbatim>\<open>.3f\<close> prints seconds with three decimals, so these two stages carry the printed
    number as an integer count of thousandths of a second (milliseconds);
  \<^item> \<open>Volume g\<close>: \<^verbatim>\<open>volume={g}dB\<close>; \<open>Highpass f\<close>: \<^verbatim>\<open>highpass=f={f}\<close>;
    \<open>Lowpass f\<close>: \<^verbatim>\<open>lowpass=f={f}\<close>; \<open>Dynaudnorm\<close>: \<^verbatim>\<open>dynaudnorm\<close>;
  \<^item> \<open>Asetrate r k\<close>: \<^verbatim>\<open>asetrate=44100*{rate_factor}\<close> with \<open>r = 44100\<close>, and
    \<open>Aresample r\<close>: \<^verbatim>\<open>aresample=44100\<close>.
  The chain string of the source is the \<^verbatim>\<open>","\<close>-join of these entries; no entry is the
  empty string, so the joined string is empty exactly when the list is.
\<close>

datatype stage =
    Atrim real real
  | Asetpts
  | Areverse
  | AfadeIn int
  | AfadeOut int int
  | Volume real
  | Highpass int
  | Lowpass int
  | Dynaudnorm
  | Asetrate nat real
  | Aresample nat

text \<open>
  Rounding to the nearest integer, ties to the even one: what Python's \<^verbatim>\<open>format\<close>
  does with the digits it drops.
\<close>

definition round_half_even :: "real \<Rightarrow> int" where
  "round_half_even x =
     (let n = \<lfloor>x\<rfloor>; r = x - of_int n in
      if r < 1 / 2 then n else if r > 1 / 2 then n + 1 else if even n then n else n + 1)"

text \<open>\<^verbatim>\<open>f"{x:.3f}"\<close>: the printed number, in thousandths.\<close>

definition fmt3 :: "real \<Rightarrow> int" where
  "fmt3 x = round_half_even (x * 1000)"

text \<open>\<^verbatim>\<open>build_filter_chain(edits, duration_ms)\<close>, statement by statement.\<close>

definition build_filter_chain :: "SampleEdits \<Rightarrow> real \<Rightarrow> stage list" where
  "build_filter_chain edits duration_ms =
     (let filters = [];
          filters =
            (if trim_start_ms edits > 0 \<or> trim_end_ms edits > 0 then
               (let end_ms = duration_ms - trim_end_ms edits;
                    end_ms = (if end_ms < trim_start_ms edits
                              then trim_start_ms edits + 50 else end_ms)
                in filters @ [Atrim (trim_start_ms edits) end_ms] @ [Asetpts])
             else filters);
          filters = (if reverse edits then filters @ [Areverse] else filters);
          effective_dur_ms = duration_ms - trim_start_ms edits - trim_end_ms edits;
          effective_dur_s = max (effective_dur_ms / 1000) 0.05;
          filters =
            (if attack_ms edits > 0 then
               (let attack_s = min (attack_ms edits / 1000) (effective_dur_s * 0.9)
                in filters @ [AfadeIn (fmt3 attack_s)])
             else filters);
          filters =
            (if release_ms edits > 0 then
               (let release_s = min (release_ms edits / 1000) (effective_dur_s * 0.9);
                    fade_start = max (effective_dur_s - release_s) 0
                in filters @ [AfadeOut (fmt3 fade_start) (fmt3 release_s)])
             else filters);
          filters = (if gain_db edits \<noteq> 0 then filters @ [Volume (gain_db edits)] else filters);
          filters = (if hp_freq edits > 20 then filters @ [Highpass (hp_freq edits)] else filters);
          filters = (if lp_freq edits < 20000 then filters @ [Lowpass (lp_freq edits)] else filters);
          filters = (if normalize_on edits then filters @ [Dynaudnorm] else filters)
      in filters)"

text \<open>
  The chain that \<^verbatim>\<open>play_with_edits\<close> hands to ffmpeg (lines 126 to 132 of
  \<^verbatim>\<open>services/player.py\<close>): the edit chain, then the two pitch filters when
  \<^verbatim>\<open>pitch != 0\<close>. \<^verbatim>\<open>2 ** (pitch / 12)\<close> is the real power.
\<close>

definition combined_chain :: "SampleEdits \<Rightarrow> real \<Rightarrow> int \<Rightarrow> stage list" where
  "combined_chain edits duration_ms pitch =
     (let chain = build_filter_chain edits duration_ms in
      if pitch \<noteq> 0 then
        (let rate_factor = 2 powr (real_of_int pitch / 12);
             pitch_filters = [Asetrate 44100 rate_factor, Aresample 44100]
         in if chain \<noteq> [] then chain @ pitch_filters else pitch_filters)
      else chain)"

subsection \<open>The chain as a concatenation of optional parts\<close>

definition trim_part :: "SampleEdits \<Rightarrow> real \<Rightarrow> stage list" where
  "trim_part e d =
     (if trim_start_ms e > 0 \<or> trim_end_ms e > 0 then
        [Atrim (trim_start_ms e)
           (if d - trim_end_ms e < trim_start_ms e then trim_start_ms e + 50
            else d - trim_end_ms e), Asetpts]
      else [])"

definition eff_s :: "SampleEdits \<Rightarrow> real \<Rightarrow> real" where
  "eff_s e d = max ((d - trim_start_ms e - trim_end_ms e) / 1000) 0.05"

definition fade_part :: "SampleEdits \<Rightarrow> real \<Rightarrow> stage list" where
  "fade_part e d =
     (if attack_ms e > 0 then [AfadeIn (fmt3 (min (attack_ms e / 1000) (eff_s e d * 0.9)))] else []) @
     (if release_ms e > 0 then
        [AfadeOut (fmt3 (max (eff_s e d - min (release_ms e / 1000) (eff_s e d * 0.9)) 0))
                  (fmt3 (min (release_ms e / 1000) (eff_s e d * 0.9)))]
      else [])"

definition tail_part :: "SampleEdits \<Rightarrow> stage list" where
  "tail_part e =
     (if gain_db e \<noteq> 0 then [Volume (gain_db e)] else []) @
     (if hp_freq e > 20 then [Highpass (hp_freq e)] else []) @
     (if lp_freq e < 20000 then [Lowpass (lp_freq e)] else []) @
     (if normalize_on e then [Dynaudnorm] else [])"

lemma app_if: "(if c then xs @ ys else xs) = xs @ (if c then ys else [])"
  by simp

lemma let_app: "(let x = a in xs @ g x) = xs @ (let x = a in g x)"
  by (simp add: Let_def)

lemma build_filter_chain_parts:
  "build_filter_chain e d =
     trim_part e d @ (if reverse e then [Areverse] else []) @ fade_part e d @ tail_part e"
  unfolding build_filter_chain_def
  apply (simp only: let_app app_if)
  apply (simp only: Let_def append_Nil append_assoc)
  apply (simp add: trim_part_def fade_part_def tail_part_def eff_s_def)
  done

text \<open>The trim stage of a chain, when it has one.\<close>

fun trim_of :: "stage list \<Rightarrow> (real \<times> real) option" where
  "trim_of [] = None"
| "trim_of (Atrim s e # _) = Some (s, e)"
| "trim_of (_ # xs) = trim_of xs"

lemma trim_of_append:
  "trim_of (xs @ ys) = (case trim_of xs of Some t \<Rightarrow> Some t | None \<Rightarrow> trim_of ys)"
  by (induction xs rule: trim_of.induct) simp_all

lemma trim_of_fade_part: "trim_of (fade_part e d) = None"
  by (simp add: fade_part_def)

lemma trim_of_tail_part: "trim_of (tail_part e) = None"
  by (simp add: tail_part_def)

lemma trim_of_chain: "trim_of (build_filter_chain e d) = trim_of (trim_part e d)"
  by (simp add: build_filter_chain_parts trim_of_append trim_of_fade_part trim_of_tail_part
        split: option.split)

lemma Atrim_notin_fade_part: "Atrim s t \<notin> set (fade_part e d)"
  by (simp add: fade_part_def)

lemma Atrim_notin_tail_part: "Atrim s t \<notin> set (tail_part e)"
  by (simp add: tail_part_def)

lemma Atrim_in_chain:
  "Atrim s t \<in> set (build_filter_chain e d) \<longleftrightarrow> Atrim s t \<in> set (trim_part e d)"
  by (simp add: build_filter_chain_parts Atrim_notin_fade_part Atrim_notin_tail_part)

text \<open>
  C6. Trim clamp. For every edit model and duration, the chain has a trim stage exactly
  when \<open>trim_start_ms > 0\<close> or \<open>trim_end_ms > 0\<close>; its start is \<open>trim_start_ms\<close> and its
  end is \<open>duration_ms - trim_end_ms\<close>, replaced by \<open>trim_start_ms + 50\<close> when that
  difference is below \<open>trim_start_ms\<close>; no other entry of the chain is a trim stage. With
  duration 1000, trim start 900 and trim end 300 the compiled end is 950.
\<close>

theorem C6_trim_clamp:
  "trim_of (build_filter_chain edits duration_ms) =
     (if trim_start_ms edits > 0 \<or> trim_end_ms edits > 0 then
        Some (trim_start_ms edits,
              if duration_ms - trim_end_ms edits < trim_start_ms edits
              then trim_start_ms edits + 50 else duration_ms - trim_end_ms edits)
      else None)
   \<and> (\<forall>s e. Atrim s e \<in> set (build_filter_chain edits duration_ms) \<longleftrightarrow>
          trim_of (build_filter_chain edits duration_ms) = Some (s, e))
   \<and> trim_of (build_filter_chain
        (default_edits\<lparr>trim_start_ms := 900, trim_end_ms := 300\<rparr>) 1000) = Some (900, 950)"
proof (intro conjI allI)
  show "trim_of (build_filter_chain edits duration_ms) =
     (if trim_start_ms edits > 0 \<or> trim_end_ms edits > 0 then
        Some (trim_start_ms edits,
              if duration_ms - trim_end_ms edits < trim_start_ms edits
              then trim_start_ms edits + 50 else duration_ms - trim_end_ms edits)
      else None)"
    by (simp add: trim_of_chain trim_part_def)
  show "Atrim s e \<in> set (build_filter_chain edits duration_ms) \<longleftrightarrow>
          trim_of (build_filter_chain edits duration_ms) = Some (s, e)" for s e
    by (auto simp: trim_of_chain Atrim_in_chain trim_part_def)
  show "trim_of (build_filter_chain
        (default_edits\<lparr>trim_start_ms := 900, trim_end_ms := 300\<rparr>) 1000) = Some (900, 950)"
    by (simp add: trim_of_chain trim_part_def default_edits_def)
qed

subsection \<open>Stage order\<close>

text \<open>
  The position of each kind of stage in the order the specification fixes: trim and its
  timestamp reset, reverse, the two fades, gain, the two tone filters, normalize, and
  the two pitch filters.
\<close>

fun stage_rank :: "stage \<Rightarrow> nat" where
  "stage_rank (Atrim _ _) = 0"
| "stage_rank Asetpts = 1"
| "stage_rank Areverse = 2"
| "stage_rank (AfadeIn _) = 3"
| "stage_rank (AfadeOut _ _) = 4"
| "stage_rank (Volume _) = 5"
| "stage_rank (Highpass _) = 6"
| "stage_rank (Lowpass _) = 7"
| "stage_rank Dynaudnorm = 8"
| "stage_rank (Asetrate _ _) = 9"
| "stage_rank (Aresample _) = 10"

text \<open>A list whose ranks increase strictly and stay between two bounds.\<close>

definition banded :: "nat \<Rightarrow> nat \<Rightarrow> stage list \<Rightarrow> bool" where
  "banded lo hi xs \<longleftrightarrow>
     sorted_wrt (<) (map stage_rank xs) \<and> (\<forall>x\<in>set xs. lo \<le> stage_rank x \<and> stage_rank x \<le> hi)"

lemma banded_append:
  assumes "banded lo m xs" and "banded m' hi ys" and "m < m'" and "lo \<le> m'" and "m \<le> hi"
  shows "banded lo hi (xs @ ys)"
proof -
  have "stage_rank x < stage_rank y" if "x \<in> set xs" and "y \<in> set ys" for x y
  proof -
    from assms(1) that(1) have "stage_rank x \<le> m" by (simp add: banded_def)
    moreover from assms(2) that(2) have "m' \<le> stage_rank y" by (simp add: banded_def)
    ultimately show ?thesis using assms(3) by linarith
  qed
  moreover have "lo \<le> stage_rank x \<and> stage_rank x \<le> hi" if "x \<in> set xs" for x
    using assms(1,5) that by (auto simp: banded_def)
  moreover have "lo \<le> stage_rank y \<and> stage_rank y \<le> hi" if "y \<in> set ys" for y
    using assms(2,4) that by (auto simp: banded_def)
  ultimately show ?thesis
    using assms(1,2) by (auto simp: banded_def sorted_wrt_append)
qed

lemma banded_trim_part: "banded 0 1 (trim_part e d)"
  by (simp add: banded_def trim_part_def)

lemma banded_reverse: "banded 2 2 (if reverse e then [Areverse] else [])"
  by (simp add: banded_def)

lemma banded_fade_part: "banded 3 4 (fade_part e d)"
  by (simp add: banded_def fade_part_def)

lemma banded_gain: "banded 5 5 (if gain_db e \<noteq> 0 then [Volume (gain_db e)] else [])"
  by (simp add: banded_def)

lemma banded_hp: "banded 6 6 (if hp_freq e > 20 then [Highpass (hp_freq e)] else [])"
  by (simp add: banded_def)

lemma banded_lp: "banded 7 7 (if lp_freq e < 20000 then [Lowpass (lp_freq e)] else [])"
  by (simp add: banded_def)

lemma banded_norm: "banded 8 8 (if normalize_on e then [Dynaudnorm] else [])"
  by (simp add: banded_def)

lemma banded_tail_part: "banded 5 8 (tail_part e)"
proof -
  have "banded 7 8 ((if lp_freq e < 20000 then [Lowpass (lp_freq e)] else []) @
                    (if normalize_on e then [Dynaudnorm] else []))"
    by (rule banded_append [OF banded_lp banded_norm]) simp_all
  then have "banded 6 8 ((if hp_freq e > 20 then [Highpass (hp_freq e)] else []) @
                    (if lp_freq e < 20000 then [Lowpass (lp_freq e)] else []) @
                    (if normalize_on e then [Dynaudnorm] else []))"
    by (rule banded_append [OF banded_hp]) simp_all
  then show ?thesis
    unfolding tail_part_def by (rule banded_append [OF banded_gain]) simp_all
qed

lemma banded_chain: "banded 0 8 (build_filter_chain e d)"
proof -
  have "banded 3 8 (fade_part e d @ tail_part e)"
    by (rule banded_append [OF banded_fade_part banded_tail_part]) simp_all
  then have "banded 2 8 ((if reverse e then [Areverse] else []) @ fade_part e d @ tail_part e)"
    by (rule banded_append [OF banded_reverse]) simp_all
  then show ?thesis
    unfolding build_filter_chain_parts by (rule banded_append [OF banded_trim_part]) simp_all
qed

lemma banded_pitch: "banded 9 10 [Asetrate r k, Aresample r']"
  by (simp add: banded_def)

lemma combined_chain_append:
  "combined_chain e d p =
     build_filter_chain e d @
       (if p \<noteq> 0 then [Asetrate 44100 (2 powr (real_of_int p / 12)), Aresample 44100] else [])"
  by (simp add: combined_chain_def Let_def)

lemma banded_combined: "banded 0 10 (combined_chain e d p)"
proof (cases "p = 0")
  case True
  have "banded 0 8 (build_filter_chain e d)" by (rule banded_chain)
  then have "banded 0 10 (build_filter_chain e d)" by (auto simp: banded_def)
  with True show ?thesis by (simp add: combined_chain_append)
next
  case False
  have "banded 0 10 (build_filter_chain e d @ [Asetrate 44100 (2 powr (real_of_int p / 12)), Aresample 44100])"
    by (rule banded_append [OF banded_chain banded_pitch]) simp_all
  with False show ?thesis by (simp add: combined_chain_append)
qed

text \<open>
  C4. Fixed stage order. For every edit model, duration and pitch, the ranks of the
  stages of the combined chain increase strictly, so whichever stages are emitted stand
  in the order trim, timestamp reset, reverse, fade in, fade out, gain, high-pass,
  low-pass, normalize, pitch; and the combined chain is the edit chain followed, exactly
  when \<open>pitch \<noteq> 0\<close>, by the rate change by the factor \<open>2 powr (pitch / 12)\<close> against
  44100 Hz and the resample back to 44100 Hz.
\<close>

theorem C4_stage_order:
  "sorted_wrt (<) (map stage_rank (combined_chain edits duration_ms pitch))
   \<and> combined_chain edits duration_ms pitch =
       build_filter_chain edits duration_ms @
         (if pitch \<noteq> 0
          then [Asetrate 44100 (2 powr (real_of_int pitch / 12)), Aresample 44100] else [])"
  using banded_combined [of edits duration_ms pitch] combined_chain_append [of edits duration_ms pitch]
  by (simp add: banded_def)

subsection \<open>Fades\<close>













section \<open>Waveform extraction (services/waveform.py)\<close>

text \<open>The Python exceptions that the modelled code can raise.\<close>

datatype py_error = ZeroDivisionError | FileNotFoundError

text \<open>
  \<^verbatim>\<open>struct.unpack(f"<{n_samples}h", raw[:n_samples * 2])\<close>: pairs of bytes read as
  little-endian two's complement 16-bit integers. The argument always has an even
  length (\<^verbatim>\<open>n_samples * 2\<close>), so the last equation is never reached from
  \<open>get_waveform\<close>.
\<close>

fun unpack_s16le :: "8 word list \<Rightarrow> int list" where
  "unpack_s16le (lo # hi # rest) =
     (let u = int (unat lo) + 256 * int (unat hi)
      in (if u \<ge> 32768 then u - 65536 else u)) # unpack_s16le rest"
| "unpack_s16le _ = []"

text \<open>One round of the loop \<^verbatim>\<open>for i in range(bins)\<close>: the value appended to \<^verbatim>\<open>peaks\<close>.\<close>

definition bin_peak :: "int list \<Rightarrow> nat \<Rightarrow> nat \<Rightarrow> int" where
  "bin_peak samples bin_size i =
     (let n_samples = length samples;
          start = i * bin_size;
          end = min (start + bin_size) n_samples
      in if start \<ge> n_samples then 0
         else (let chunk = take (end - start) (drop start samples)
               in if chunk \<noteq> [] then Max (set (map abs chunk)) else 0))"

text \<open>
  Lines 38 to 40: \<^verbatim>\<open>mx = max(peaks) if peaks else 1.0\<close>, and the division by \<^verbatim>\<open>mx\<close> when
  \<^verbatim>\<open>mx > 0\<close>.
\<close>

definition normalize_peaks :: "int list \<Rightarrow> real list" where
  "normalize_peaks peaks =
     (let mx = (if peaks \<noteq> [] then real_of_int (Max (set peaks)) else 1.0)
      in if mx > 0 then map (\<lambda>p. real_of_int p / mx) peaks else map real_of_int peaks)"

text \<open>
  \<^verbatim>\<open>get_waveform\<close>, from the bytes \<^verbatim>\<open>raw\<close> that ffmpeg wrote to its standard output.
  \<^verbatim>\<open>bins\<close> is a Python int: \<^verbatim>\<open>[0.0] * bins\<close> and \<^verbatim>\<open>range(bins)\<close> are empty for a negative
  one, and \<^verbatim>\<open>n_samples // bins\<close> raises for zero.
\<close>

definition get_waveform :: "8 word list \<Rightarrow> int \<Rightarrow> py_error + real list" where
  "get_waveform raw bins =
     (if raw = [] \<or> length raw < 2 then Inr (replicate (nat bins) 0)
      else
        (let n_samples = length raw div 2;
             samples = unpack_s16le (take (n_samples * 2) raw)
         in if bins = 0 then Inl ZeroDivisionError
            else
              (let bin_size = max 1 (int n_samples div bins);
                   peaks = map (bin_peak samples (nat bin_size)) [0..<nat bins]
               in Inr (normalize_peaks peaks))))"

subsection \<open>What one bin holds\<close>

lemma chunk_nth:
  assumes "e \<le> length xs"
  shows "take (e - s) (drop s xs) = map ((!) xs) [s..<e]"
proof (rule nth_equalityI)
  show "length (take (e - s) (drop s xs)) = length (map ((!) xs) [s..<e])"
    using assms by simp
next
  fix i assume "i < length (take (e - s) (drop s xs))"
  then have "i < e - s" by simp
  then show "take (e - s) (drop s xs) ! i = map ((!) xs) [s..<e] ! i"
    using assms by simp
qed

lemma bin_peak_window:
  assumes "1 \<le> w"
  shows "bin_peak samples w i =
     (if length samples \<le> i * w then 0
      else Max ((\<lambda>k. \<bar>samples ! k\<bar>) ` {i * w ..< min (i * w + w) (length samples)}))"
proof (cases "length samples \<le> i * w")
  case True
  then show ?thesis by (simp add: bin_peak_def)
next
  case False
  let ?s = "i * w" and ?e = "min (i * w + w) (length samples)"
  have lt: "?s < ?e" using False assms by (auto simp: min_def)
  have chunk: "take (?e - ?s) (drop ?s samples) = map ((!) samples) [?s..<?e]"
    by (rule chunk_nth) simp
  have ne: "map ((!) samples) [?s..<?e] \<noteq> []"
    unfolding map_is_Nil_conv upt_eq_Nil_conv using lt by linarith
  have "bin_peak samples w i = Max (set (map abs (map ((!) samples) [?s..<?e])))"
    using False ne unfolding bin_peak_def Let_def chunk by (simp only: if_False if_True not_False_eq_True)
  also have "set (map abs (map ((!) samples) [?s..<?e])) = (\<lambda>k. \<bar>samples ! k\<bar>) ` {?s..<?e}"
    by (simp add: image_image)
  finally show ?thesis using False by simp
qed

lemma bin_peak_nonneg: "0 \<le> bin_peak samples w i"
proof -
  have "0 \<le> Max (set (map abs xs))" if "xs \<noteq> []" for xs :: "int list"
  proof -
    from that obtain x where "x \<in> set xs" by (cases xs) auto
    then have "\<bar>x\<bar> \<le> Max (set (map abs xs))" by (intro Max_ge) auto
    then show ?thesis by linarith
  qed
  then show ?thesis by (simp add: bin_peak_def Let_def)
qed

subsection \<open>Normalisation\<close>

lemma normalize_peaks_nth:
  assumes "i < length peaks" and "\<forall>p\<in>set peaks. 0 \<le> p"
  shows "normalize_peaks peaks ! i =
           (if 0 < Max (set peaks) then real_of_int (peaks ! i) / real_of_int (Max (set peaks)) else 0)"
    and "0 \<le> normalize_peaks peaks ! i" and "normalize_peaks peaks ! i \<le> 1"
proof -
  from assms(1) have ne: "peaks \<noteq> []" by auto
  have mem: "peaks ! i \<in> set peaks" using assms(1) by simp
  then have le: "peaks ! i \<le> Max (set peaks)" by (intro Max_ge) auto
  have nn: "0 \<le> peaks ! i" using assms(2) mem by blast
  show "normalize_peaks peaks ! i =
           (if 0 < Max (set peaks) then real_of_int (peaks ! i) / real_of_int (Max (set peaks)) else 0)"
  proof (cases "0 < Max (set peaks)")
    case True
    then show ?thesis using ne assms(1) by (simp add: normalize_peaks_def)
  next
    case False
    with le nn have "peaks ! i = 0" by linarith
    with False show ?thesis using ne assms(1) by (simp add: normalize_peaks_def)
  qed
  then show "0 \<le> normalize_peaks peaks ! i" and "normalize_peaks peaks ! i \<le> 1"
    using le nn by (auto simp: divide_le_eq)
qed

lemma normalize_peaks_length: "length (normalize_peaks peaks) = length peaks"
  by (simp add: normalize_peaks_def Let_def)

lemma normalize_peaks_zeros: "normalize_peaks (replicate k 0) = replicate k 0"
  by (cases k) (simp_all add: normalize_peaks_def)

subsection \<open>The whole extraction\<close>

text \<open>Lines 22 and 23: the samples decoded from \<^verbatim>\<open>raw\<close>.\<close>

definition decoded :: "8 word list \<Rightarrow> int list" where
  "decoded raw = unpack_s16le (take (length raw div 2 * 2) raw)"

lemma bin_peak_Nil: "bin_peak [] w = (\<lambda>i. 0)"
  by (rule ext) (simp add: bin_peak_def)

lemma get_waveform_pos:
  assumes "1 \<le> bins"
  shows "get_waveform raw bins =
     Inr (normalize_peaks
            (map (bin_peak (decoded raw) (max 1 (length (decoded raw) div nat bins)))
               [0..<nat bins]))"
proof (cases "length raw < 2")
  case True
  then have "decoded raw = []" by (simp add: decoded_def)
  moreover have "map (\<lambda>i. 0::int) [0..<nat bins] = replicate (nat bins) 0"
    by (simp add: map_replicate_const)
  ultimately show ?thesis
    using True by (simp add: get_waveform_def bin_peak_Nil normalize_peaks_zeros)
next
  case False
  have len: "length (unpack_s16le xs) = length xs div 2" for xs
    by (induction xs rule: unpack_s16le.induct) (simp_all add: Let_def)
  have n: "length (decoded raw) = length raw div 2"
    by (simp add: decoded_def len)
  have "int (length raw div 2) div bins = int (length raw div 2 div nat bins)"
    using assms by (simp add: zdiv_int)
  then have "nat (max 1 (int (length raw div 2) div bins)) = max 1 (length raw div 2 div nat bins)"
    by (simp add: max_def)
  then show ?thesis
    using False assms unfolding get_waveform_def Let_def n decoded_def [symmetric]
    by auto
qed

text \<open>
  C8. Waveform envelope, as the code has it. For every byte stream \<open>raw\<close> and every
  \<open>bins \<ge> 1\<close>, \<open>get_waveform\<close> returns exactly \<open>bins\<close> values. With \<open>n\<close> decoded samples
  and the window size \<open>w = max 1 (n div bins)\<close>, the raw peak of bin \<open>i\<close> is the largest
  absolute sample over the positions from \<open>i * w\<close> up to, not including,
  \<open>min (i * w + w) n\<close>, and 0 when that window starts at or after the end of the
  stream. Every returned value is the raw peak of its bin divided by the largest raw
  peak \<open>mx\<close> when \<open>mx > 0\<close>, and 0 otherwise, and lies between 0 and 1. Raw bin values
  4, 8, 2, 0 normalise to 0.5, 1, 0.25, 0, and bins that are all 0 stay 0.
\<close>

theorem C8_waveform_envelope:
  assumes "1 \<le> bins"
  shows "(\<exists>out. get_waveform raw bins = Inr out \<and> length out = nat bins \<and>
            (let samples = decoded raw;
                 n = length samples;
                 w = max 1 (n div nat bins);
                 peak = (\<lambda>i. if n \<le> i * w then 0
                            else Max ((\<lambda>k. \<bar>samples ! k\<bar>) ` {i * w ..< min (i * w + w) n}));
                 mx = Max (peak ` {..<nat bins})
             in \<forall>i<nat bins.
                  out ! i = (if 0 < mx then real_of_int (peak i) / real_of_int mx else 0)
                  \<and> 0 \<le> out ! i \<and> out ! i \<le> 1))
         \<and> normalize_peaks [4, 8, 2, 0] = [0.5, 1, 0.25, 0]
         \<and> normalize_peaks (replicate k 0) = replicate k 0"
proof -
  define samples where "samples = decoded raw"
  define w where "w = max 1 (length samples div nat bins)"
  define peak where "peak = (\<lambda>i. if length samples \<le> i * w then 0
      else Max ((\<lambda>k. \<bar>samples ! k\<bar>) ` {i * w ..< min (i * w + w) (length samples)}))"
  define peaks where "peaks = map (bin_peak samples w) [0..<nat bins]"
  have w1: "1 \<le> w" by (simp add: w_def)
  have bp: "bin_peak samples w = peak"
    unfolding peak_def by (rule ext) (rule bin_peak_window [OF w1])
  have out: "get_waveform raw bins = Inr (normalize_peaks peaks)"
    unfolding peaks_def w_def samples_def by (rule get_waveform_pos [OF assms])
  have len: "length peaks = nat bins" by (simp add: peaks_def)
  have set_peaks: "set peaks = peak ` {..<nat bins}"
    by (simp add: peaks_def bp atLeast0LessThan)
  have nonneg: "\<forall>p\<in>set peaks. 0 \<le> p"
    by (auto simp: peaks_def bin_peak_nonneg)
  have nth: "peaks ! i = peak i" if "i < nat bins" for i
    using that by (simp add: peaks_def bp)
  have each: "normalize_peaks peaks ! i =
        (if 0 < Max (peak ` {..<nat bins})
         then real_of_int (peak i) / real_of_int (Max (peak ` {..<nat bins})) else 0)
      \<and> 0 \<le> normalize_peaks peaks ! i \<and> normalize_peaks peaks ! i \<le> 1"
    if "i < nat bins" for i
  proof -
    from that have i: "i < length peaks" by (simp add: len)
    note n = normalize_peaks_nth [OF i nonneg, unfolded set_peaks nth [OF that]]
    show ?thesis by (intro conjI) (rule n)+
  qed
  have "\<exists>out. get_waveform raw bins = Inr out \<and> length out = nat bins \<and>
            (let samples = decoded raw;
                 n = length samples;
                 w = max 1 (n div nat bins);
                 peak = (\<lambda>i. if n \<le> i * w then 0
                            else Max ((\<lambda>k. \<bar>samples ! k\<bar>) ` {i * w ..< min (i * w + w) n}));
                 mx = Max (peak ` {..<nat bins})
             in \<forall>i<nat bins.
                  out ! i = (if 0 < mx then real_of_int (peak i) / real_of_int mx else 0)
                  \<and> 0 \<le> out ! i \<and> out ! i \<le> 1)"
  proof (intro exI conjI)
    show "get_waveform raw bins = Inr (normalize_peaks peaks)" by (rule out)
    show "length (normalize_peaks peaks) = nat bins"
      by (simp add: normalize_peaks_length len)
    show "let samples = decoded raw;
                 n = length samples;
                 w = max 1 (n div nat bins);
                 peak = (\<lambda>i. if n \<le> i * w then 0
                            else Max ((\<lambda>k. \<bar>samples ! k\<bar>) ` {i * w ..< min (i * w + w) n}));
                 mx = Max (peak ` {..<nat bins})
             in \<forall>i<nat bins.
                  normalize_peaks peaks ! i =
                    (if 0 < mx then real_of_int (peak i) / real_of_int mx else 0)
                  \<and> 0 \<le> normalize_peaks peaks ! i \<and> normalize_peaks peaks ! i \<le> 1"
      using each unfolding Let_def peak_def w_def samples_def by blast
  qed
  moreover have "normalize_peaks [4, 8, 2, 0] = [0.5, 1, 0.25, 0]"
    by (simp add: normalize_peaks_def)
  moreover have "normalize_peaks (replicate k 0) = replicate k 0"
    by (rule normalize_peaks_zeros)
  ultimately show ?thesis by (intro conjI)
qed

theorem C8_waveform_envelope_witness:
  "(1::int) \<le> 4
   \<and> get_waveform [3, 0, 249, 255] 4 = Inr [3 / 7, 1, 0, 0]
   \<and> (\<exists>out. get_waveform [3, 0, 249, 255] 4 = Inr out \<and> length out = nat 4)"
proof -
  have h: "(1::int) \<le> 4" by simp
  have v: "get_waveform [3, 0, 249, 255] 4 = Inr [3 / 7, 1, 0, 0]" by code_simp
  from C8_waveform_envelope [OF h, of "[3, 0, 249, 255]" 0]
  have "\<exists>out. get_waveform [3, 0, 249, 255] 4 = Inr out \<and> length out = nat 4" by blast
  with h v show ?thesis by (intro conjI)
qed

text \<open>
  The claim as worded fails on a stream shorter than the number of bins: two samples
  (3 and -7) in four bins give a window size \<open>2 div 4 = 0\<close> in the claim's words, so no
  window would hold a sample and every bin would be 0, where the code takes windows of
  one sample. With \<open>bins = 0\<close> and at least one sample the division
  \<^verbatim>\<open>n_samples // bins\<close> raises.
\<close>

theorem C8_waveform_envelope_counterexample:
  "decoded [3, 0, 249, 255] = [3, - 7]
   \<and> length (decoded [3, 0, 249, 255]) div 4 = 0
   \<and> get_waveform [3, 0, 249, 255] 4 = Inr [3 / 7, 1, 0, 0]
   \<and> get_waveform [3, 0, 249, 255] 0 = Inl ZeroDivisionError"
  by (intro conjI; code_simp)

section \<open>Sample catalogue (services/samples.py)\<close>

text \<open>
  File names are strings of 8-bit characters. Python's \<^verbatim>\<open>\d\<close>, \<^verbatim>\<open>int\<close> and \<^verbatim>\<open>str.lower\<close>
  are modelled on ASCII: the decimal digits are \<^verbatim>\<open>0\<close> to \<^verbatim>\<open>9\<close>, and only \<^verbatim>\<open>A\<close> to \<^verbatim>\<open>Z\<close>
  change under \<^verbatim>\<open>lower\<close>.
\<close>

definition DRUM_NOTE_MAP :: "(nat \<times> string) list" where
  "DRUM_NOTE_MAP =
     [(36, ''kick''), (38, ''snare''), (42, ''hihat''), (46, ''hihat-open''),
      (37, ''rimshot''), (39, ''clap''), (44, ''pedal-hihat''), (49, ''crash''),
      (51, ''ride''), (56, ''cowbell''), (75, ''clave'')]"

definition DRUM_INSTRUMENTS :: "string list" where
  "DRUM_INSTRUMENTS = [''kick'', ''snare'', ''hihat'', ''hihat-open'', ''rimshot'', ''clap'']"

definition PITCHED_INSTRUMENTS :: "string list" where
  "PITCHED_INSTRUMENTS = [''bass'', ''lead'', ''pad'', ''arp'', ''fx'', ''subBass'']"

definition TEXTURE_INSTRUMENTS :: "string list" where
  "TEXTURE_INSTRUMENTS =
     [''vocalChop'', ''texture'', ''noise'', ''scratch'', ''atmosphere'', ''stab'']"

definition ALL_INSTRUMENTS :: "string list" where
  "ALL_INSTRUMENTS = DRUM_INSTRUMENTS @ PITCHED_INSTRUMENTS @ TEXTURE_INSTRUMENTS"

text \<open>
  The dataclass \<^verbatim>\<open>SampleFile\<close>. \<open>path\<close> is the entry's name inside the scanned
  directory (the directory itself is the same for every entry).
\<close>

record SampleFile =
  path :: string
  filename :: string
  instrument :: string
  variant_num :: "nat option"
  size_bytes :: nat
  duration_estimate :: real
  midi_note :: "nat option"

text \<open>One entry of the directory: its name and the size \<^verbatim>\<open>stat\<close> reports.\<close>

record dir_entry =
  entry_name :: string
  st_size :: nat

definition is_digit :: "char \<Rightarrow> bool" where
  "is_digit c \<longleftrightarrow> c \<in> set ''0123456789''"

definition is_alpha :: "char \<Rightarrow> bool" where
  "is_alpha c \<longleftrightarrow> c \<in> set ''abcdefghijklmnopqrstuvwxyzABCDEFGHIJKLMNOPQRSTUVWXYZ''"

definition lower_char :: "char \<Rightarrow> char" where
  "lower_char c =
     (if c \<in> set ''ABCDEFGHIJKLMNOPQRSTUVWXYZ'' then char_of (of_char c + (32::nat)) else c)"

text \<open>\<^verbatim>\<open>str.lower\<close>.\<close>

definition lower :: "string \<Rightarrow> string" where
  "lower s = map lower_char s"

text \<open>\<^verbatim>\<open>int(s)\<close> on a non-empty string of digits.\<close>

definition digit_val :: "char \<Rightarrow> nat" where
  "digit_val c = of_char c - 48"

definition int_of_digits :: "string \<Rightarrow> nat" where
  "int_of_digits s = foldl (\<lambda>n c. 10 * n + digit_val c) 0 s"

text \<open>
  \<^verbatim>\<open>PurePath.suffix\<close> and \<^verbatim>\<open>PurePath.stem\<close> of a name: with \<^verbatim>\<open>i = name.rfind(".")\<close>, the
  suffix is \<^verbatim>\<open>name[i:]\<close> and the stem \<^verbatim>\<open>name[:i]\<close> when \<^verbatim>\<open>0 < i < len(name) - 1\<close>;
  otherwise the suffix is empty and the stem is the name. \<open>after_dot\<close> is the number of
  characters after the last dot.
\<close>

definition after_dot :: "string \<Rightarrow> nat" where
  "after_dot name = length (takeWhile (\<lambda>c. c \<noteq> CHR ''.'') (rev name))"

definition has_suffix :: "string \<Rightarrow> bool" where
  "has_suffix name \<longleftrightarrow>
     CHR ''.'' \<in> set name \<and> 0 < length name - 1 - after_dot name \<and> 0 < after_dot name"


definition stem :: "string \<Rightarrow> string" where
  "stem name =
     (if has_suffix name then take (length name - 1 - after_dot name) name else name)"

text \<open>
  \<^verbatim>\<open>re.match(r'^(\d+)-(.+)', name)\<close>: group 1 when the pattern matches. \<^verbatim>\<open>-\<close> is not a
  digit, so \<^verbatim>\<open>\d+\<close> can only end where the leading run of digits ends; \<^verbatim>\<open>.+\<close> needs one
  more character, which \<^verbatim>\<open>.\<close> does not match when it is a newline.
\<close>

definition drum_match :: "string \<Rightarrow> string option" where
  "drum_match name =
     (let ds = takeWhile is_digit name; rest = dropWhile is_digit name
      in case rest of
           c # d # _ \<Rightarrow> if ds \<noteq> [] \<and> c = CHR ''-'' \<and> d \<noteq> CHR 0x0A then Some ds else None
         | _ \<Rightarrow> None)"

text \<open>
  \<^verbatim>\<open>re.match(r'^([a-zA-Z]+)-v(\d+)', name)\<close>: groups 1 and 2 when the pattern matches.
  \<^verbatim>\<open>-\<close> is not a letter, so group 1 is the leading run of letters; \<^verbatim>\<open>\d+\<close> is greedy, so
  group 2 is the whole run of digits after \<^verbatim>\<open>-v\<close>.
\<close>

definition inst_match :: "string \<Rightarrow> (string \<times> string) option" where
  "inst_match name =
     (let letters = takeWhile is_alpha name; rest = dropWhile is_alpha name
      in case rest of
           c # v # after \<Rightarrow>
             if letters \<noteq> [] \<and> c = CHR ''-'' \<and> v = CHR ''v'' \<and> takeWhile is_digit after \<noteq> []
             then Some (letters, takeWhile is_digit after) else None
         | _ \<Rightarrow> None)"

text \<open>\<^verbatim>\<open>SampleManager._parse_file\<close>.\<close>

definition parse_file :: "dir_entry \<Rightarrow> SampleFile option" where
  "parse_file f =
     (let name = stem (entry_name f);
          size = st_size f;
          drum =
            (case drum_match name of
               Some ds \<Rightarrow>
                 (let note = int_of_digits ds
                  in case map_of DRUM_NOTE_MAP note of
                       Some inst \<Rightarrow>
                         Some \<lparr>path = entry_name f, filename = entry_name f, instrument = inst,
                               variant_num = None, size_bytes = size,
                               duration_estimate = real size / 44100 / 2,
                               midi_note = Some note\<rparr>
                     | None \<Rightarrow> None)
             | None \<Rightarrow> None)
      in case drum of
           Some sample \<Rightarrow> Some sample
         | None \<Rightarrow>
            (let variant =
               (case inst_match name of
                  Some (inst, ds) \<Rightarrow>
                    if inst \<in> set ALL_INSTRUMENTS
                    then Some \<lparr>path = entry_name f, filename = entry_name f, instrument = inst,
                               variant_num = Some (int_of_digits ds), size_bytes = size,
                               duration_estimate = real size / 44100 / 2,
                               midi_note = None\<rparr>
                    else None
                | None \<Rightarrow> None)
             in case variant of
                  Some sample \<Rightarrow> Some sample
                | None \<Rightarrow>
                   (case find (\<lambda>inst. lower name = lower inst) ALL_INSTRUMENTS of
                      Some inst \<Rightarrow>
                        Some \<lparr>path = entry_name f, filename = entry_name f, instrument = inst,
                              variant_num = None, size_bytes = size,
                              duration_estimate = real size / 44100 / 2,
                              midi_note = None\<rparr>
                    | None \<Rightarrow> None)))"




subsection \<open>Character classes\<close>

lemma digit_not_alpha: "is_digit c \<Longrightarrow> \<not> is_alpha c"
  by (auto simp: is_digit_def is_alpha_def)



lemma lower_char_digit: "is_digit c \<Longrightarrow> lower_char c = c"
  by (auto simp: is_digit_def lower_char_def)

lemma digit_in_lower:
  assumes "c \<in> set name" and "is_digit c"
  shows "c \<in> set (lower name)"
proof -
  have "lower_char c \<in> lower_char ` set name" using assms(1) by (rule imageI)
  then show ?thesis using assms(2) by (simp add: lower_def lower_char_digit)
qed

lemma ALL_INSTRUMENTS_eq:
  "ALL_INSTRUMENTS =
     [''kick'', ''snare'', ''hihat'', ''hihat-open'', ''rimshot'', ''clap'',
      ''bass'', ''lead'', ''pad'', ''arp'', ''fx'', ''subBass'',
      ''vocalChop'', ''texture'', ''noise'', ''scratch'', ''atmosphere'', ''stab'']"
  by (simp add: ALL_INSTRUMENTS_def DRUM_INSTRUMENTS_def PITCHED_INSTRUMENTS_def
        TEXTURE_INSTRUMENTS_def)

lemma lower_ALL_INSTRUMENTS:
  "map lower ALL_INSTRUMENTS =
     [''kick'', ''snare'', ''hihat'', ''hihat-open'', ''rimshot'', ''clap'',
      ''bass'', ''lead'', ''pad'', ''arp'', ''fx'', ''subbass'',
      ''vocalchop'', ''texture'', ''noise'', ''scratch'', ''atmosphere'', ''stab'']"
  unfolding ALL_INSTRUMENTS_eq by code_simp

lemma no_digit_in_lowered: "\<forall>s\<in>set (map lower ALL_INSTRUMENTS). \<forall>c\<in>set s. \<not> is_digit c"
  unfolding lower_ALL_INSTRUMENTS by (simp add: is_digit_def)




subsection \<open>The three patterns\<close>


lemma drum_match_hd:
  assumes "drum_match name = Some ds"
  shows "name \<noteq> [] \<and> is_digit (hd name)"
proof -
  have "takeWhile is_digit name \<noteq> []"
    using assms by (auto simp: drum_match_def Let_def split: list.splits if_splits)
  then show ?thesis by (cases name) (auto split: if_splits)
qed



lemma hd_digit_no_inst:
  assumes "name \<noteq> []" and "is_digit (hd name)"
  shows "inst_match name = None"
proof -
  have "takeWhile is_alpha name = []"
    using assms by (cases name) (auto dest: digit_not_alpha)
  then show ?thesis
    by (simp add: inst_match_def Let_def split: list.splits)
qed


lemma digit_no_bare:
  assumes "c \<in> set name" and "is_digit c"
  shows "find (\<lambda>inst. lower name = lower inst) ALL_INSTRUMENTS = None"
proof -
  have "lower name \<noteq> lower inst" if "inst \<in> set ALL_INSTRUMENTS" for inst
  proof
    assume eq: "lower name = lower inst"
    have "c \<in> set (lower name)" using assms by (rule digit_in_lower)
    then have "c \<in> set (lower inst)" using eq by simp
    moreover have "lower inst \<in> set (map lower ALL_INSTRUMENTS)" using that by simp
    ultimately show False using no_digit_in_lowered assms(2) by blast
  qed
  then show ?thesis by (simp add: find_None_iff)
qed



subsection \<open>What \<open>parse_file\<close> returns under each pattern\<close>

lemma parse_file_drum:
  assumes "drum_match (stem (entry_name f)) = Some ds"
  shows "parse_file f =
     (case map_of DRUM_NOTE_MAP (int_of_digits ds) of
        Some inst \<Rightarrow>
          Some \<lparr>path = entry_name f, filename = entry_name f, instrument = inst,
                variant_num = None, size_bytes = st_size f,
                duration_estimate = real (st_size f) / 44100 / 2,
                midi_note = Some (int_of_digits ds)\<rparr>
      | None \<Rightarrow> None)"
proof (cases "map_of DRUM_NOTE_MAP (int_of_digits ds)")
  case (Some inst)
  then show ?thesis using assms by (simp add: parse_file_def Let_def)
next
  case None
  from drum_match_hd [OF assms]
  have ne: "stem (entry_name f) \<noteq> []" and dg: "is_digit (hd (stem (entry_name f)))" by simp_all
  have i: "inst_match (stem (entry_name f)) = None" using ne dg by (rule hd_digit_no_inst)
  have "hd (stem (entry_name f)) \<in> set (stem (entry_name f))" using ne by simp
  then have b: "find (\<lambda>inst. lower (stem (entry_name f)) = lower inst) ALL_INSTRUMENTS = None"
    using dg by (rule digit_no_bare)
  show ?thesis using assms None i b by (simp add: parse_file_def Let_def)
qed



lemma parse_file_instrument:
  assumes "parse_file f = Some s"
  shows "instrument s \<in> snd ` set DRUM_NOTE_MAP \<union> set ALL_INSTRUMENTS"
proof (cases "drum_match (stem (entry_name f))")
  case (Some ds)
  show ?thesis
    using assms unfolding parse_file_drum [OF Some]
    by (auto split: option.splits dest!: map_of_SomeD intro: rev_image_eqI)
next
  case None
  show ?thesis
  proof (cases "inst_match (stem (entry_name f))")
    case i: None
    from assms None i show ?thesis
      by (auto simp: parse_file_def Let_def find_Some_iff split: option.splits)
  next
    case (Some p)
    from assms None Some show ?thesis
      by (cases p)
         (auto simp: parse_file_def Let_def find_Some_iff split: option.splits if_splits)
  qed
qed









subsection \<open>The examples\<close>










subsection \<open>The loop of \<open>scan\<close> keeps the keys and fills each bucket with its own samples\<close>



























end
